theory Spec2Isabelle
  imports Main "HOL-Library.Multiset"
begin

section \<open>Strings and the library functions the searcher calls\<close>

text \<open>
  A Go string is a sequence of bytes; it is modelled as a \<open>string\<close> (a list of 8-bit
  characters). The functions of the Go library that the searcher calls are written out
  below for what they do on ASCII text. Bytes from \<open>0x80\<close> on are copied unchanged by
  \<open>Quote\<close> (as Go does for printable UTF-8 text) and are never taken for white space by
  \<open>TrimSpace\<close>; unprintable or ill-formed text outside ASCII is not modelled.
\<close>

definition dquote :: char where
  "dquote = CHR 0x22"

definition backslash :: char where
  "backslash = CHR 0x5C"

definition tab :: char where
  "tab = CHR 0x09"

definition cr :: char where
  "cr = CHR 0x0D"

definition lf :: char where
  "lf = CHR 0x0A"

text \<open>\<open>strings.ContainsAny(s, chars)\<close>.\<close>

definition ContainsAny :: "string \<Rightarrow> string \<Rightarrow> bool" where
  "ContainsAny s chars = list_ex (\<lambda>c. c \<in> set chars) s"

text \<open>\<open>strings.HasPrefix(s, p)\<close> and \<open>strings.Contains(s, sub)\<close>.\<close>

fun HasPrefix :: "string \<Rightarrow> string \<Rightarrow> bool" where
  "HasPrefix s [] = True"
| "HasPrefix [] (b # p) = False"
| "HasPrefix (a # s) (b # p) = (a = b \<and> HasPrefix s p)"

fun Contains :: "string \<Rightarrow> string \<Rightarrow> bool" where
  "Contains [] sub = (sub = [])"
| "Contains (c # s) sub = (HasPrefix (c # s) sub \<or> Contains s sub)"

text \<open>
  \<open>strings.SplitN(k, ":", 2)\<close> for a \<open>k\<close> that contains the separator: the text before
  the first separator and the text after it (\<open>z[0]\<close> and \<open>z[1]\<close>). The searcher calls
  it only under the guard \<open>strings.Contains(k, ":")\<close>.
\<close>

definition SplitN2 :: "string \<Rightarrow> char \<Rightarrow> string \<times> string" where
  "SplitN2 k sep = (takeWhile (\<lambda>c. c \<noteq> sep) k, drop 1 (dropWhile (\<lambda>c. c \<noteq> sep) k))"

text \<open>\<open>strings.Join(elems, sep)\<close>.\<close>

fun Join :: "string list \<Rightarrow> string \<Rightarrow> string" where
  "Join [] sep = []"
| "Join [x] sep = x"
| "Join (x # y # ys) sep = x @ sep @ Join (y # ys) sep"

text \<open>\<open>strconv.Itoa\<close>: the decimal text of an integer.\<close>

definition digit :: "nat \<Rightarrow> char" where
  "digit n = ''0123456789'' ! n"

fun utoa :: "nat \<Rightarrow> string" where
  "utoa n = (if n < 10 then [digit n] else utoa (n div 10) @ [digit (n mod 10)])"

declare utoa.simps [simp del]

definition Itoa :: "int \<Rightarrow> string" where
  "Itoa i = (if i < 0 then CHR ''-'' # utoa (nat (- i)) else utoa (nat i))"

text \<open>
  \<open>strconv.Quote\<close>, which is what the verb \<open>%q\<close> of \<open>fmt.Sprintf\<close> prints for a string:
  the text between double quotes, with the double quote and the backslash escaped by a
  backslash, the control characters written as \<open>\a \b \f \n \r \t \v\<close> or \<open>\x\<close> and two
  hexadecimal digits, and every other character copied.
\<close>

definition lowerhex :: "nat \<Rightarrow> char" where
  "lowerhex n = ''0123456789abcdef'' ! n"

definition escapeRune :: "char \<Rightarrow> string" where
  "escapeRune c =
     (if c = dquote \<or> c = backslash then [backslash, c]
      else if c = CHR 0x07 then [backslash, CHR ''a'']
      else if c = CHR 0x08 then [backslash, CHR ''b'']
      else if c = CHR 0x0C then [backslash, CHR ''f'']
      else if c = lf then [backslash, CHR ''n'']
      else if c = cr then [backslash, CHR ''r'']
      else if c = tab then [backslash, CHR ''t'']
      else if c = CHR 0x0B then [backslash, CHR ''v'']
      else if (of_char c :: nat) < 32 \<or> c = CHR 0x7F
        then [backslash, CHR ''x'', lowerhex (of_char c div 16), lowerhex (of_char c mod 16)]
      else [c])"

definition Quote :: "string \<Rightarrow> string" where
  "Quote s = dquote # concat (map escapeRune s) @ [dquote]"

text \<open>\<open>strings.TrimSpace\<close>: leading and trailing white space removed.\<close>

definition isSpace :: "char \<Rightarrow> bool" where
  "isSpace c = (c = tab \<or> c = lf \<or> c = CHR 0x0B \<or> c = CHR 0x0C \<or> c = cr \<or> c = CHR '' '')"

definition TrimSpace :: "string \<Rightarrow> string" where
  "TrimSpace s = rev (dropWhile isSpace (rev (dropWhile isSpace s)))"

section \<open>Quoting keywords and qualifier values\<close>

text \<open>The set of characters that makes a term need quotes: \<open>" \"\t\r\n"\<close>.\<close>

definition quoteChars :: string where
  "quoteChars = [CHR '' '', dquote, tab, cr, lf]"

definition quoteKeyword :: "string \<Rightarrow> string" where
  "quoteKeyword k =
     (if ContainsAny k quoteChars then
        (if Contains k '':'' then
           (case SplitN2 k (CHR '':'') of (z0, z1) \<Rightarrow> z0 @ '':'' @ Quote z1)
         else Quote k)
      else k)"

definition quoteQualifier :: "string \<Rightarrow> string" where
  "quoteQualifier q = (if ContainsAny q quoteChars then Quote q else q)"

section \<open>Queries\<close>

text \<open>
  A \<open>Qualifier\<close> (and a \<open>Parameter\<close>, which is the same interface) is used by the searcher
  through three of its methods only; a value of the interface is modelled by what they
  return.
\<close>

record qualifier =
  IsSet :: bool
  Key :: string
  String :: string

text \<open>
  A slice of strings is a view of an array that the callers share: copying a \<open>Query\<close>
  copies the slice header, not the array. The searcher never changes a header, it only
  writes elements, so a slice is modelled by the address of its array and the store maps
  an address to the elements.
\<close>

type_synonym addr = nat

type_synonym heap = "addr \<Rightarrow> string list"

record query =
  Keywords :: addr
  Kind :: string
  Limit :: int
  Order :: qualifier
  Page :: int
  Qualifiers :: "string \<rightharpoonup> qualifier"
  Sort :: qualifier

text \<open>
  The order in which \<open>range\<close> visits the entries of a map is chosen by the Go runtime.
  The model takes the choice as a parameter: for each of the two \<open>range\<close> statements
  over a map, the list of entries in the order they are visited. \<open>visits es m\<close> says that
  \<open>es\<close> is such a list for the map \<open>m\<close>: every entry once.

  Two more parameters stand for code that the searcher calls and that is not part of it:
  \<open>ghinstance.RESTPrefix\<close>, and the verdict of \<open>http.NewRequest\<close> on the text of a
  URL (\<open>None\<close> when it accepts the text, the error otherwise).
\<close>

record runtime =
  range_qualifiers :: "(string \<rightharpoonup> qualifier) \<Rightarrow> (string \<times> qualifier) list"
  range_strings :: "(string \<rightharpoonup> string) \<Rightarrow> (string \<times> string) list"
  RESTPrefix :: "string \<Rightarrow> string"
  NewRequest :: "string \<Rightarrow> string option"


definition quoteKeywords :: "addr \<Rightarrow> heap \<Rightarrow> addr \<times> heap" where
  "quoteKeywords ks h = (ks, h(ks := map quoteKeyword (h ks)))"

definition listSet_step :: "string \<times> qualifier \<Rightarrow> (string \<rightharpoonup> string) \<Rightarrow> (string \<rightharpoonup> string)" where
  "listSet_step e m = (if IsSet (snd e) then m(Key (snd e) \<mapsto> String (snd e)) else m)"

definition listSet :: "runtime \<Rightarrow> (string \<rightharpoonup> qualifier) \<Rightarrow> (string \<rightharpoonup> string)" where
  "listSet rt q = fold listSet_step (range_qualifiers rt q) Map.empty"

text \<open>The strings that the loop of \<open>QueryString\<close> writes, one for each entry visited.\<close>

definition qualifierTerms :: "runtime \<Rightarrow> query \<Rightarrow> string list" where
  "qualifierTerms rt query =
     map (\<lambda>(k, v). '' '' @ k @ '':'' @ quoteQualifier v)
       (range_strings rt (listSet rt (Qualifiers query)))"

definition QueryString :: "runtime \<Rightarrow> query \<Rightarrow> heap \<Rightarrow> string \<times> heap" where
  "QueryString rt query h =
     (case quoteKeywords (Keywords query) h of (quotedKeywords, h') \<Rightarrow>
        (Join (h' quotedKeywords) '' '' @ concat (qualifierTerms rt query), h'))"

subsection \<open>The browser URL\<close>

text \<open>
  \<open>url.Values\<close> with the one operation the searcher uses, \<open>Set\<close>, and \<open>Encode\<close>, which
  writes the keys in sorted order, keys and values escaped by \<open>url.QueryEscape\<close>.
\<close>

type_synonym Values = "(string \<times> string) list"

fun SetValue :: "Values \<Rightarrow> string \<Rightarrow> string \<Rightarrow> Values" where
  "SetValue [] k v = [(k, v)]"
| "SetValue ((k', v') # vs) k v =
     (if k' = k then (k, v) # vs else (k', v') # SetValue vs k v)"

fun str_less :: "string \<Rightarrow> string \<Rightarrow> bool" where
  "str_less [] [] = False"
| "str_less [] (b # t) = True"
| "str_less (a # s) [] = False"
| "str_less (a # s) (b # t) =
     ((of_char a :: nat) < of_char b \<or> (a = b \<and> str_less s t))"

fun insertKey :: "string \<times> string \<Rightarrow> Values \<Rightarrow> Values" where
  "insertKey e [] = [e]"
| "insertKey e (x # xs) = (if str_less (fst x) (fst e) then x # insertKey e xs else e # x # xs)"

definition sortKeys :: "Values \<Rightarrow> Values" where
  "sortKeys vs = foldr insertKey vs []"

definition upperhex :: "nat \<Rightarrow> char" where
  "upperhex n = ''0123456789ABCDEF'' ! n"

definition isAlnum :: "char \<Rightarrow> bool" where
  "isAlnum c = (let n = (of_char c :: nat) in
     (97 \<le> n \<and> n \<le> 122) \<or> (65 \<le> n \<and> n \<le> 90) \<or> (48 \<le> n \<and> n \<le> 57))"

definition shouldEscape :: "char \<Rightarrow> bool" where
  "shouldEscape c = (\<not> (isAlnum c \<or> c = CHR ''-'' \<or> c = CHR ''_'' \<or> c = CHR ''.'' \<or> c = CHR ''~''))"

definition escapeByte :: "char \<Rightarrow> string" where
  "escapeByte c =
     (if c = CHR '' '' then ''+''
      else if shouldEscape c
        then [CHR ''%'', upperhex (of_char c div 16), upperhex (of_char c mod 16)]
      else [c])"

definition QueryEscape :: "string \<Rightarrow> string" where
  "QueryEscape s = concat (map escapeByte s)"

definition Encode :: "Values \<Rightarrow> string" where
  "Encode vs = Join (map (\<lambda>(k, v). QueryEscape k @ ''='' @ QueryEscape v) (sortKeys vs)) ''&''"

definition URL :: "runtime \<Rightarrow> string \<Rightarrow> query \<Rightarrow> heap \<Rightarrow> string \<times> heap" where
  "URL rt host query h =
     (let path = ''https://'' @ host @ ''/search'';
          queryString = SetValue [] ''type'' (Kind query)
      in case QueryString rt query h of (q, h') \<Rightarrow>
        (let queryString = SetValue queryString ''q'' q;
             queryString = (if IsSet (Order query)
                            then SetValue queryString (Key (Order query)) (String (Order query))
                            else queryString);
             queryString = (if IsSet (Sort query)
                            then SetValue queryString (Key (Sort query)) (String (Sort query))
                            else queryString)
         in (path @ ''?'' @ Encode queryString, h')))"

section \<open>Responses and errors\<close>

text \<open>
  The searcher looks at a \<open>*url.URL\<close> in two ways: it prints it (\<open>String()\<close>) and it
  reads the parameter \<open>q\<close> of its query (\<open>Query().Get("q")\<close>).
\<close>

record url =
  url_string :: string
  url_q :: string

record httpErrorItem =
  Code :: string
  Field :: string
  Message :: string
  Resource :: string

record httpError =
  Errors :: "httpErrorItem list"
  Message :: string
  RequestURL :: url
  StatusCode :: int

datatype go_error =
    TransportError string
  | RequestError string
  | ReadError string
  | JSONError string
  | HTTPError httpError

datatype panic = IndexOutOfRange nat nat

record 'r RepositoriesResult =
  IncompleteResults :: bool
  Items :: "'r list"
  Total :: int

text \<open>
  The members of an error document that the searcher's struct receives from
  \<open>json.Unmarshal\<close>: \<open>message\<close> and \<open>errors\<close>, each present or absent. (A document
  that named the other two fields of the struct would overwrite them too; the provider's
  documents do not, and the model leaves that out.)
\<close>

record error_doc =
  doc_message :: "string option"
  doc_errors :: "httpErrorItem list option"

text \<open>
  A response body is modelled by what reading and decoding it yield: the error of
  reading it, if reading fails; the page that \<open>Decode\<close> fills from it, or the decoder's
  error; the members that \<open>Unmarshal\<close> finds in it, or its error.
\<close>

record 'r body =
  read_error :: "string option"
  page_json :: "string + 'r RepositoriesResult"
  error_json :: "string + error_doc"

definition ReadAll :: "'r body \<Rightarrow> go_error + 'r body" where
  "ReadAll b = (case read_error b of Some e \<Rightarrow> Inl (ReadError e) | None \<Rightarrow> Inr b)"

definition Unmarshal :: "'r body \<Rightarrow> httpError \<Rightarrow> go_error + httpError" where
  "Unmarshal b v =
     (case error_json b of
        Inl e \<Rightarrow> Inl (JSONError e)
      | Inr d \<Rightarrow>
          Inr (v\<lparr>Errors := (case doc_errors d of Some es \<Rightarrow> es | None \<Rightarrow> Errors v),
                 Message := (case doc_message d of Some m \<Rightarrow> m | None \<Rightarrow> Message v)\<rparr>))"

definition Decode :: "'r body \<Rightarrow> go_error + 'r RepositoriesResult" where
  "Decode b =
     (case read_error b of
        Some e \<Rightarrow> Inl (ReadError e)
      | None \<Rightarrow> (case page_json b of Inl e \<Rightarrow> Inl (JSONError e) | Inr page \<Rightarrow> Inr page))"

text \<open>
  A response, by the parts the searcher reads: the status code and status line, the
  headers \<open>Link\<close> and \<open>Content-Type\<close> as \<open>Header.Get\<close> returns them (empty when
  absent), the URL of the request it answers, and the body.
\<close>

record 'r response =
  RespStatusCode :: int
  RespStatus :: string
  HeaderLink :: string
  HeaderContentType :: string
  RespRequestURL :: url
  RespBody :: "'r body"

subsection \<open>The regular expressions\<close>

text \<open>
  \<open>linkRE\<close> is \<open><([^>]+)>;\s*rel="([^"]+)"\<close>. Each repetition is followed by a character
  it cannot contain, so a match that starts at a given place is unique: \<open>linkRE_at s\<close>
  is the match at the start of \<open>s\<close>, as the two groups and the text after the match.
\<close>

definition isREspace :: "char \<Rightarrow> bool" where
  "isREspace c = (c = tab \<or> c = lf \<or> c = CHR 0x0C \<or> c = cr \<or> c = CHR '' '')"

definition linkRE_at :: "string \<Rightarrow> (string \<times> string \<times> string) option" where
  "linkRE_at s =
     (case s of
        [] \<Rightarrow> None
      | c # s1 \<Rightarrow>
          if c \<noteq> CHR ''<'' then None
          else let m1 = takeWhile (\<lambda>c. c \<noteq> CHR ''>'') s1;
                   s2 = dropWhile (\<lambda>c. c \<noteq> CHR ''>'') s1
               in if m1 = [] then None
                  else (case s2 of
                          [] \<Rightarrow> None
                        | gt # s3 \<Rightarrow>
                            (case s3 of
                               [] \<Rightarrow> None
                             | semi # s4 \<Rightarrow>
                                 if semi \<noteq> CHR '';'' then None
                                 else let s5 = dropWhile isREspace s4
                                      in if \<not> HasPrefix s5 (''rel='' @ [dquote]) then None
                                         else let s6 = drop 5 s5;
                                                  m2 = takeWhile (\<lambda>c. c \<noteq> dquote) s6;
                                                  s7 = dropWhile (\<lambda>c. c \<noteq> dquote) s6
                                              in if m2 = [] then None
                                                 else (case s7 of
                                                         [] \<Rightarrow> None
                                                       | q # rest \<Rightarrow> Some (m1, m2, rest)))))"

lemma linkRE_at_shorter:
  assumes "linkRE_at s = Some (m1, m2, rest)"
  shows "length rest < length s"
proof -
  obtain c s1 where s: "s = c # s1"
    using assms by (cases s) (auto simp: linkRE_at_def)
  define s2 where "s2 = dropWhile (\<lambda>c. c \<noteq> CHR ''>'') s1"
  obtain gt semi s4 where s2: "s2 = gt # semi # s4"
    using assms unfolding s linkRE_at_def s2_def
    by (auto simp: Let_def split: if_splits list.splits)
  define s6 where "s6 = drop 5 (dropWhile isREspace s4)"
  have rest: "dropWhile (\<lambda>c. c \<noteq> dquote) s6 = hd (dropWhile (\<lambda>c. c \<noteq> dquote) s6) # rest"
    using assms s2 unfolding s linkRE_at_def s2_def s6_def
    by (auto simp: Let_def split: if_splits list.splits)
  have "length rest < length (dropWhile (\<lambda>c. c \<noteq> dquote) s6)"
    by (subst rest) simp
  also have "\<dots> \<le> length s6" by (rule length_dropWhile_le)
  also have "\<dots> \<le> length (dropWhile isREspace s4)" by (simp add: s6_def)
  also have "\<dots> \<le> length s4" by (rule length_dropWhile_le)
  also have "\<dots> \<le> length s2" by (simp add: s2)
  also have "\<dots> \<le> length s1" unfolding s2_def by (rule length_dropWhile_le)
  also have "\<dots> \<le> length s" by (simp add: s)
  finally show ?thesis .
qed

text \<open>
  \<open>linkRE.FindAllStringSubmatch(s, -1)\<close>: the matches from left to right, each search
  starting where the previous match ended; of each match, the two groups.
\<close>

function FindAllStringSubmatch_linkRE :: "string \<Rightarrow> (string \<times> string) list" where
  "FindAllStringSubmatch_linkRE [] = []"
| "FindAllStringSubmatch_linkRE (c # s) =
     (case linkRE_at (c # s) of
        Some (m1, m2, rest) \<Rightarrow> (m1, m2) # FindAllStringSubmatch_linkRE rest
      | None \<Rightarrow> FindAllStringSubmatch_linkRE s)"
  by pat_completeness auto
termination
  by (relation "measure length") (auto dest: linkRE_at_shorter)

text \<open>
  \<open>pageRE\<close> is \<open>(\?|&)page=(\d*)\<close>; \<open>FindStringSubmatch\<close> returns the leftmost match,
  of which the searcher reads the second group, the digits.
\<close>

definition isDigit :: "char \<Rightarrow> bool" where
  "isDigit c = (48 \<le> (of_char c :: nat) \<and> (of_char c :: nat) \<le> 57)"

fun FindStringSubmatch_pageRE :: "string \<Rightarrow> string option" where
  "FindStringSubmatch_pageRE [] = None"
| "FindStringSubmatch_pageRE (c # s) =
     (if (c = CHR ''?'' \<or> c = CHR ''&'') \<and> HasPrefix s ''page=''
      then Some (takeWhile isDigit (drop 5 s))
      else FindStringSubmatch_pageRE s)"

text \<open>\<open>jsonTypeRE\<close> is \<open>[/+]json($|;)\<close>.\<close>

fun MatchString_jsonTypeRE :: "string \<Rightarrow> bool" where
  "MatchString_jsonTypeRE [] = False"
| "MatchString_jsonTypeRE (c # s) =
     (((c = CHR ''/'' \<or> c = CHR ''+'') \<and> HasPrefix s ''json''
        \<and> (case drop 4 s of [] \<Rightarrow> True | d # t \<Rightarrow> d = CHR '';''))
      \<or> MatchString_jsonTypeRE s)"

text \<open>
  \<open>strconv.Atoi\<close>, with \<open>int\<close> of 64 bits: an optional sign and decimal digits, and
  an error (\<open>None\<close>) for any other text and for a value out of range.
\<close>

definition Atoi :: "string \<Rightarrow> int option" where
  "Atoi s =
     (let neg = (s \<noteq> [] \<and> hd s = CHR ''-'');
          ds = (if s \<noteq> [] \<and> (hd s = CHR ''-'' \<or> hd s = CHR ''+'') then tl s else s);
          n = foldl (\<lambda>a c. 10 * a + (int (of_char c) - 48)) 0 ds
      in if ds = [] \<or> \<not> list_all isDigit ds then None
         else if neg then (if n \<le> 2 ^ 63 then Some (- n) else None)
         else (if n < 2 ^ 63 then Some n else None))"

section \<open>The searcher\<close>

definition maxPerPage :: int where
  "maxPerPage = 100"

definition min' :: "int \<Rightarrow> int \<Rightarrow> int" where
  "min' a b = (if a < b then a else b)"

definition nextPage_step :: "int \<Rightarrow> string \<times> string \<Rightarrow> int" where
  "nextPage_step page m =
     (if snd m = ''next'' then
        (case FindStringSubmatch_pageRE (fst m) of
           Some p2 \<Rightarrow> (case Atoi p2 of Some i \<Rightarrow> i | None \<Rightarrow> page)
         | None \<Rightarrow> page)
      else page)"

definition nextPage :: "'r response option \<Rightarrow> int" where
  "nextPage resp =
     (case resp of
        None \<Rightarrow> 1
      | Some r \<Rightarrow> foldl nextPage_step 0 (FindAllStringSubmatch_linkRE (HeaderLink r)))"

definition httpError_Error :: "httpError \<Rightarrow> panic + string" where
  "httpError_Error err =
     (if StatusCode err \<noteq> 422 then
        Inr (''HTTP '' @ Itoa (StatusCode err) @ '': '' @ httpError.Message err
             @ '' ('' @ url_string (RequestURL err) @ '')'')
      else let query = TrimSpace (url_q (RequestURL err))
           in (case Errors err of
                 [] \<Rightarrow> Inl (IndexOutOfRange 0 0)
               | e # es \<Rightarrow>
                   Inr (''Invalid search query '' @ Quote query @ ''.'' @ [lf]
                        @ httpErrorItem.Message e)))"

definition handleHTTPError :: "'r response \<Rightarrow> go_error" where
  "handleHTTPError resp =
     (let httpError = \<lparr>Errors = [], Message = [], RequestURL = RespRequestURL resp,
                        StatusCode = RespStatusCode resp\<rparr>
      in if \<not> MatchString_jsonTypeRE (HeaderContentType resp)
         then HTTPError (httpError\<lparr>Message := RespStatus resp\<rparr>)
         else (case ReadAll (RespBody resp) of
                 Inl err \<Rightarrow> err
               | Inr body \<Rightarrow>
                   (case Unmarshal body httpError of
                      Inl err \<Rightarrow> err
                    | Inr httpError \<Rightarrow> HTTPError httpError)))"

subsection \<open>Requests, the client and the world\<close>

text \<open>
  A request is recorded by the arguments of the calls that build its URL: the path, the
  values set under \<open>page\<close>, \<open>per_page\<close> and \<open>q\<close>, and the key and value set for the
  order and for the sort parameter when they are set. \<open>request_url\<close> is the text that
  \<open>search\<close> hands to \<open>http.NewRequest\<close>.
\<close>

record request =
  req_path :: string
  req_page :: int
  req_per_page :: int
  req_q :: string
  req_order :: "(string \<times> string) option"
  req_sort :: "(string \<times> string) option"

definition request_values :: "request \<Rightarrow> Values" where
  "request_values r =
     (let qs = SetValue [] ''page'' (Itoa (req_page r));
          qs = SetValue qs ''per_page'' (Itoa (req_per_page r));
          qs = SetValue qs ''q'' (req_q r);
          qs = (case req_order r of Some (k, v) \<Rightarrow> SetValue qs k v | None \<Rightarrow> qs);
          qs = (case req_sort r of Some (k, v) \<Rightarrow> SetValue qs k v | None \<Rightarrow> qs)
      in qs)"

definition request_url :: "request \<Rightarrow> string" where
  "request_url r = req_path r @ ''?'' @ Encode (request_values r)"

text \<open>
  The HTTP client answers a request with a transport error or a response and may change
  its own state (the provider, the network) while doing so. The searcher holds the
  client and the host.
\<close>

record ('s, 'r) searcher =
  client :: "request \<Rightarrow> 's \<Rightarrow> (string + 'r response) \<times> 's"
  host :: string

text \<open>
  The world a call runs in: the store of the keyword arrays, the state behind the
  client, and the log of the exchanges so far (each request handed to the client with
  its answer, in order). The log is written by \<open>search\<close> only and is never read by the
  searcher; theorems use it to speak about the requests issued.
\<close>

record ('s, 'r) world =
  heap :: heap
  net :: 's
  log :: "(request \<times> (string + 'r response)) list"

definition search ::
  "runtime \<Rightarrow> ('s, 'r) searcher \<Rightarrow> query \<Rightarrow> ('s, 'r) world
    \<Rightarrow> ('r response option \<times> (go_error + 'r RepositoriesResult)) \<times> ('s, 'r) world" where
  "search rt s query w =
     (let path = RESTPrefix rt (host s) @ ''search/'' @ Kind query
      in case QueryString rt query (heap w) of (q, h') \<Rightarrow>
        (let w1 = w\<lparr>heap := h'\<rparr>;
             req = \<lparr>req_path = path, req_page = Page query, req_per_page = Limit query,
                    req_q = q,
                    req_order = (if IsSet (Order query)
                                 then Some (Key (Order query), String (Order query)) else None),
                    req_sort = (if IsSet (Sort query)
                                then Some (Key (Sort query), String (Sort query)) else None)\<rparr>
         in case NewRequest rt (request_url req) of
              Some err \<Rightarrow> ((None, Inl (RequestError err)), w1)
            | None \<Rightarrow>
                (case client s req (net w1) of (reply, n') \<Rightarrow>
                   (let w2 = w1\<lparr>net := n', log := log w1 @ [(req, reply)]\<rparr>
                    in case reply of
                         Inl err \<Rightarrow> ((None, Inl (TransportError err)), w2)
                       | Inr resp \<Rightarrow>
                           (let success = (RespStatusCode resp \<ge> 200 \<and> RespStatusCode resp < 300)
                            in if \<not> success then ((Some resp, Inl (handleHTTPError resp)), w2)
                               else (case Decode (RespBody resp) of
                                       Inl err \<Rightarrow> ((Some resp, Inl err), w2)
                                     | Inr page \<Rightarrow> ((Some resp, Inr page), w2)))))))"

text \<open>
  The loop of \<open>Repositories\<close>, with the variables it keeps between iterations as
  arguments. It need not terminate, so its result is an option: \<open>None\<close> when it runs
  forever. A finished call returns the result, the error (\<open>None\<close> for \<open>nil\<close>) and the
  world it leaves.
\<close>

partial_function (option) Repositories_loop ::
  "runtime \<Rightarrow> ('s, 'r) searcher \<Rightarrow> query \<Rightarrow> int \<Rightarrow> 'r response option
    \<Rightarrow> 'r RepositoriesResult \<Rightarrow> ('s, 'r) world
    \<Rightarrow> (('r RepositoriesResult \<times> go_error option) \<times> ('s, 'r) world) option" where
  "Repositories_loop rt s query toRetrieve resp result w =
     (if toRetrieve > 0 then
        (let query = query\<lparr>Limit := min' toRetrieve maxPerPage\<rparr>;
             query = query\<lparr>Page := nextPage resp\<rparr>
         in if Page query = 0 then Some ((result, None), w)
            else (case search rt s query w of
                    ((resp', Inl err), w') \<Rightarrow> Some ((result, Some err), w')
                  | ((resp', Inr page), w') \<Rightarrow>
                      Repositories_loop rt s query (toRetrieve - int (length (Items page))) resp'
                        (result\<lparr>IncompleteResults := IncompleteResults page,
                                Total := Total page,
                                Items := Items result @ Items page\<rparr>) w'))
      else Some ((result, None), w))"

definition Repositories ::
  "runtime \<Rightarrow> ('s, 'r) searcher \<Rightarrow> query \<Rightarrow> ('s, 'r) world
    \<Rightarrow> (('r RepositoriesResult \<times> go_error option) \<times> ('s, 'r) world) option" where
  "Repositories rt s query w =
     Repositories_loop rt s query (Limit query) None
       \<lparr>IncompleteResults = False, Items = [], Total = 0\<rparr> w"

section \<open>What a fetch leaves in the log\<close>

text \<open>
  What \<open>search\<close> returns for the answer of the client: the error, or the decoded page.
\<close>

definition outcome :: "(string + 'r response) \<Rightarrow> go_error + 'r RepositoriesResult" where
  "outcome reply =
     (case reply of
        Inl err \<Rightarrow> Inl (TransportError err)
      | Inr resp \<Rightarrow>
          if \<not> (RespStatusCode resp \<ge> 200 \<and> RespStatusCode resp < 300)
          then Inl (handleHTTPError resp)
          else Decode (RespBody resp))"

definition page_of :: "request \<times> (string + 'r response) \<Rightarrow> 'r RepositoriesResult option" where
  "page_of x = (case outcome (snd x) of Inl err \<Rightarrow> None | Inr page \<Rightarrow> Some page)"

definition response_of :: "request \<times> (string + 'r response) \<Rightarrow> 'r response option" where
  "response_of x = (case snd x of Inl err \<Rightarrow> None | Inr resp \<Rightarrow> Some resp)"

text \<open>The pages that a list of exchanges delivered, failed exchanges left out.\<close>

definition pages :: "(request \<times> (string + 'r response)) list \<Rightarrow> 'r RepositoriesResult list" where
  "pages exs = concat (map (\<lambda>x. case page_of x of Some page \<Rightarrow> [page] | None \<Rightarrow> []) exs)"

text \<open>
  \<open>paged remaining prev exs\<close>: the exchanges \<open>exs\<close> are those of a fetch that has
  \<open>remaining\<close> items to retrieve and \<open>prev\<close> as its previous response. Each request is
  issued while something remains, for the page that the previous response names and
  for \<open>min(remaining, 100)\<close> items; a page takes the number of its items off
  \<open>remaining\<close>; nothing follows a failed exchange.
\<close>

fun paged ::
  "int \<Rightarrow> 'r response option \<Rightarrow> (request \<times> (string + 'r response)) list \<Rightarrow> bool" where
  "paged remaining prev [] = True"
| "paged remaining prev (x # xs) =
     (0 < remaining \<and> req_page (fst x) = nextPage prev \<and> req_page (fst x) \<noteq> 0
      \<and> req_per_page (fst x) = min' remaining maxPerPage
      \<and> (case page_of x of
            Some page \<Rightarrow> paged (remaining - int (length (Items page))) (response_of x) xs
          | None \<Rightarrow> xs = []))"

text \<open>The exchanges that a call added to the log.\<close>

definition exchanges ::
  "('s, 'r) world \<Rightarrow> ('s, 'r) world \<Rightarrow> (request \<times> (string + 'r response)) list" where
  "exchanges w w' = drop (length (log w)) (log w')"

text \<open>The request that \<open>search\<close> builds once the query string \<open>q\<close> is rendered.\<close>

definition request_for :: "runtime \<Rightarrow> ('s, 'r) searcher \<Rightarrow> query \<Rightarrow> string \<Rightarrow> request" where
  "request_for rt s query q =
     \<lparr>req_path = RESTPrefix rt (host s) @ ''search/'' @ Kind query,
      req_page = Page query, req_per_page = Limit query, req_q = q,
      req_order = (if IsSet (Order query)
                   then Some (Key (Order query), String (Order query)) else None),
      req_sort = (if IsSet (Sort query)
                  then Some (Key (Sort query), String (Sort query)) else None)\<rparr>"

text \<open>
  How the result \<open>res\<close> and the error \<open>e\<close> of a finished loop relate to the exchanges
  \<open>exs\<close> it made, for a loop entered with \<open>t\<close> items to retrieve, the previous
  response \<open>prev\<close> and the accumulated \<open>result\<close>.
\<close>

definition run_inv ::
  "int \<Rightarrow> 'r response option \<Rightarrow> 'r RepositoriesResult \<Rightarrow> (request \<times> (string + 'r response)) list
    \<Rightarrow> 'r RepositoriesResult \<Rightarrow> go_error option \<Rightarrow> bool" where
  "run_inv t prev result exs res e =
     (paged t prev exs
      \<and> Items res = Items result @ concat (map Items (pages exs))
      \<and> (pages exs = [] \<longrightarrow> Total res = Total result \<and> IncompleteResults res = IncompleteResults result)
      \<and> (pages exs \<noteq> [] \<longrightarrow> Total res = Total (last (pages exs))
             \<and> IncompleteResults res = IncompleteResults (last (pages exs)))
      \<and> (e = None \<longrightarrow> list_all (\<lambda>x. page_of x \<noteq> None) exs)
      \<and> (\<forall>err. e = Some err \<longrightarrow>
            (exs \<noteq> [] \<and> outcome (snd (last exs)) = Inl err) \<or> (\<exists>m. err = RequestError m)))"

section \<open>Concrete inputs\<close>

text \<open>The inputs at which the theorems below are evaluated.\<close>

definition search_url :: "string \<Rightarrow> url" where
  "search_url q =
     \<lparr>url_string = ''https://api.github.com/search/repositories?page=1&per_page=30&q='' @ QueryEscape q,
      url_q = q\<rparr>"


definition unprocessable :: "string \<Rightarrow> error_doc \<Rightarrow> nat response" where
  "unprocessable q doc =
     \<lparr>RespStatusCode = 422, RespStatus = ''422 Unprocessable Entity'', HeaderLink = [],
      HeaderContentType = ''application/json; charset=utf-8'', RespRequestURL = search_url q,
      RespBody = \<lparr>read_error = None,
                  page_json = Inr \<lparr>IncompleteResults = False, Items = [], Total = 0\<rparr>,
                  error_json = Inr doc\<rparr>\<rparr>"


definition unset :: qualifier where
  "unset = \<lparr>IsSet = False, Key = [], String = []\<rparr>"

definition no_qualifiers :: runtime where
  "no_qualifiers =
     \<lparr>range_qualifiers = (\<lambda>m. []), range_strings = (\<lambda>m. []),
      RESTPrefix = (\<lambda>h. ''https://api.'' @ h @ ''/''), NewRequest = (\<lambda>u. None)\<rparr>"

definition in_progress_query :: query where
  "in_progress_query =
     \<lparr>Keywords = 0, Kind = ''repositories'', Limit = 30, Order = unset, Page = 0,
      Qualifiers = Map.empty, Sort = unset\<rparr>"

definition in_progress_heap :: heap where
  "in_progress_heap = (\<lambda>a. [])(0 := [''in progress''])"





definition cli_heap :: heap where
  "cli_heap = (\<lambda>a. [])(0 := [''cli''])"

definition next_link :: string where
  "next_link = ''<https://api.github.com/search/repositories?page=2&per_page=100&q=cli>; rel=''
     @ [dquote] @ ''next'' @ [dquote]"

definition page_response :: "string \<Rightarrow> nat RepositoriesResult \<Rightarrow> nat response" where
  "page_response link page =
     \<lparr>RespStatusCode = 200, RespStatus = ''200 OK'', HeaderLink = link,
      HeaderContentType = ''application/json; charset=utf-8'', RespRequestURL = search_url ''cli'',
      RespBody = \<lparr>read_error = None, page_json = Inr page,
                  error_json = Inr \<lparr>doc_message = None, doc_errors = None\<rparr>\<rparr>\<rparr>"


definition oversupplies :: "(unit, nat) searcher" where
  "oversupplies =
     \<lparr>client = (\<lambda>req n.
         (Inr (page_response [] \<lparr>IncompleteResults = False, Items = [1, 2, 3], Total = 3\<rparr>), n)),
      host = ''github.com''\<rparr>"

definition exact_pages :: "(unit, nat) searcher" where
  "exact_pages =
     \<lparr>client = (\<lambda>req n.
         (Inr (page_response (if req_per_page req = 100 then next_link else [])
                \<lparr>IncompleteResults = False, Items = replicate (nat (req_per_page req)) 0,
                 Total = 250\<rparr>), n)),
      host = ''github.com''\<rparr>"


definition cli_query :: "int \<Rightarrow> query" where
  "cli_query limit =
     \<lparr>Keywords = 0, Kind = ''repositories'', Limit = limit, Order = unset, Page = 0,
      Qualifiers = Map.empty, Sort = unset\<rparr>"

definition start :: "(unit, nat) world" where
  "start = \<lparr>heap = cli_heap, net = (), log = []\<rparr>"


definition cli_request :: "int \<Rightarrow> int \<Rightarrow> request" where
  "cli_request page per_page =
     \<lparr>req_path = ''https://api.github.com/search/repositories'', req_page = page,
      req_per_page = per_page, req_q = ''cli'', req_order = None, req_sort = None\<rparr>"

definition logged :: "(request \<times> (string + nat response)) list \<Rightarrow> (unit, nat) world" where
  "logged exs = \<lparr>heap = cli_heap, net = (), log = exs\<rparr>"

section \<open>Quoting\<close>






section \<open>Translating failed responses\<close>



text \<open>
  C9. A response with status 422 and a JSON body that has no \<open>errors\<close> member, or an
  empty one, is translated to a structured error with an empty list of field errors;
  printing that error reads the first element of the empty list and panics with an
  index out of range.
\<close>

theorem no_field_errors_panics:
  "handleHTTPError (unprocessable ''user:doesnotexist''
       \<lparr>doc_message = Some ''Validation Failed'', doc_errors = None\<rparr>)
     = HTTPError \<lparr>Errors = [], Message = ''Validation Failed'',
                  RequestURL = search_url ''user:doesnotexist'', StatusCode = 422\<rparr>
   \<and> handleHTTPError (unprocessable ''user:doesnotexist''
       \<lparr>doc_message = Some ''Validation Failed'', doc_errors = Some []\<rparr>)
     = HTTPError \<lparr>Errors = [], Message = ''Validation Failed'',
                  RequestURL = search_url ''user:doesnotexist'', StatusCode = 422\<rparr>
   \<and> httpError_Error \<lparr>Errors = [], Message = ''Validation Failed'',
                  RequestURL = search_url ''user:doesnotexist'', StatusCode = 422\<rparr>
     = Inl (IndexOutOfRange 0 0)"
  by (simp add: handleHTTPError_def unprocessable_def ReadAll_def Unmarshal_def httpError_Error_def)










section \<open>Rendering a query\<close>

text \<open>What a rendering leaves in the store: the keywords of the query, each quoted.\<close>

lemma QueryString_store:
  "snd (QueryString rt q h) = h(Keywords q := map quoteKeyword (h (Keywords q)))"
  by (simp add: QueryString_def quoteKeywords_def)

lemma URL_store:
  "snd (URL rt hostname q h) = h(Keywords q := map quoteKeyword (h (Keywords q)))"
  by (simp add: URL_def Let_def QueryString_def quoteKeywords_def)

text \<open>
  C4. \<open>QueryString\<close> and \<open>URL\<close> write the quoted keywords back into the array of the
  caller's \<open>Keywords\<close> slice. For the keyword \<open>in progress\<close>: before the call the array
  holds \<open>in progress\<close>, after a call of either function it holds \<open>"in progress"\<close>, and
  a second rendering of the same query quotes the keyword again.
\<close>

theorem QueryString_rewrites_keywords:
  "in_progress_heap (Keywords in_progress_query) = [''in progress'']
 \<and> QueryString no_qualifiers in_progress_query in_progress_heap
     = (dquote # ''in progress'' @ [dquote],
        in_progress_heap (0 := [dquote # ''in progress'' @ [dquote]]))
 \<and> URL no_qualifiers ''github.com'' in_progress_query in_progress_heap
     = (''https://github.com/search?q=%22in+progress%22&type=repositories'',
        in_progress_heap (0 := [dquote # ''in progress'' @ [dquote]]))
 \<and> fst (QueryString no_qualifiers in_progress_query
          (in_progress_heap (0 := [dquote # ''in progress'' @ [dquote]])))
     = [dquote, backslash, dquote] @ ''in progress'' @ [backslash, dquote, dquote]"
  by (simp add: in_progress_heap_def in_progress_query_def no_qualifiers_def unset_def
      QueryString_def quoteKeywords_def quoteKeyword_def qualifierTerms_def listSet_def
      ContainsAny_def quoteChars_def Quote_def escapeRune_def URL_def Encode_def sortKeys_def
      QueryEscape_def escapeByte_def shouldEscape_def isAlnum_def upperhex_def
      dquote_def backslash_def tab_def lf_def cr_def)













section \<open>One call of \<open>search\<close>\<close>

lemma search_refused:
  assumes "QueryString rt query (heap w) = (q, h')"
    and "NewRequest rt (request_url (request_for rt s query q)) = Some m"
  shows "search rt s query w = ((None, Inl (RequestError m)), w\<lparr>heap := h'\<rparr>)"
  using assms by (simp add: search_def request_for_def)

lemma search_sent:
  assumes "QueryString rt query (heap w) = (q, h')"
    and "NewRequest rt (request_url (request_for rt s query q)) = None"
    and "client s (request_for rt s query q) (net w) = (reply, n')"
  shows "search rt s query w =
           ((response_of (request_for rt s query q, reply), outcome reply),
            w\<lparr>heap := h', net := n', log := log w @ [(request_for rt s query q, reply)]\<rparr>)"
proof (cases reply)
  case (Inl err)
  with assms show ?thesis
    by (simp add: search_def request_for_def response_of_def outcome_def)
next
  case (Inr resp)
  show ?thesis
  proof (cases "RespStatusCode resp \<ge> 200 \<and> RespStatusCode resp < 300")
    case False
    with assms Inr show ?thesis
      by (simp add: search_def request_for_def response_of_def outcome_def)
  next
    case True
    with assms Inr show ?thesis
      by (cases "Decode (RespBody resp)")
         (simp_all add: search_def request_for_def response_of_def outcome_def)
  qed
qed

lemma search_log:
  assumes "search rt s query w = ((r, out), w')"
  shows "(log w' = log w \<and> (\<exists>m. out = Inl (RequestError m)))
       \<or> (\<exists>req reply. log w' = log w @ [(req, reply)] \<and> req_per_page req = Limit query
             \<and> req_page req = Page query \<and> out = outcome reply
             \<and> r = response_of (req, reply))"
proof -
  obtain q h' where qs: "QueryString rt query (heap w) = (q, h')"
    by (cases "QueryString rt query (heap w)")
  show ?thesis
  proof (cases "NewRequest rt (request_url (request_for rt s query q))")
    case (Some m)
    from search_refused [OF qs Some] assms show ?thesis by simp
  next
    case None
    obtain reply n' where c: "client s (request_for rt s query q) (net w) = (reply, n')"
      by (cases "client s (request_for rt s query q) (net w)")
    have "req_per_page (request_for rt s query q) = Limit query"
      "req_page (request_for rt s query q) = Page query"
      by (simp_all add: request_for_def)
    with search_sent [OF qs None c] assms show ?thesis by auto
  qed
qed

section \<open>The exchanges of a fetch\<close>

lemma loop_log:
  fixes s :: "('s, 'r) searcher" and y :: "('r RepositoriesResult \<times> go_error option) \<times> ('s, 'r) world"
  assumes "Repositories_loop rt s query t resp result w = Some y"
  shows "\<exists>exs. log (snd y) = log w @ exs \<and> run_inv t resp result exs (fst (fst y)) (snd (fst y))"
proof (rule Repositories_loop.raw_induct
    [where P = "\<lambda>rt s query t resp result w y.
       \<exists>exs. log (snd y) = log w @ exs \<and> run_inv t resp result exs (fst (fst y)) (snd (fst y))",
     OF _ assms])
  fix loop :: "runtime \<Rightarrow> ('s, 'r) searcher \<Rightarrow> query \<Rightarrow> int \<Rightarrow> 'r response option
    \<Rightarrow> 'r RepositoriesResult \<Rightarrow> ('s, 'r) world
    \<Rightarrow> (('r RepositoriesResult \<times> go_error option) \<times> ('s, 'r) world) option"
  fix rt :: runtime and s :: "('s, 'r) searcher" and query :: query and t :: int
    and resp :: "'r response option" and result :: "'r RepositoriesResult"
    and w :: "('s, 'r) world" and y :: "('r RepositoriesResult \<times> go_error option) \<times> ('s, 'r) world"
  assume IH: "\<And>rt s query t resp result w y. loop rt s query t resp result w = Some y \<Longrightarrow>
      \<exists>exs. log (snd y) = log w @ exs \<and> run_inv t resp result exs (fst (fst y)) (snd (fst y))"
  assume body: "(if 0 < t
      then let query = query\<lparr>Limit := min' t maxPerPage\<rparr>;
               query = query\<lparr>Page := nextPage resp\<rparr>
           in if Page query = 0 then Some ((result, None), w)
              else case search rt s query w of
                   ((resp', Inl err), w') \<Rightarrow> Some ((result, Some err), w')
                   | ((resp', Inr page), w') \<Rightarrow>
                       loop rt s query (t - int (length (Items page))) resp'
                        (result\<lparr>IncompleteResults := IncompleteResults page,
                            Total := Total page,
                            Items := Items result @ Items page\<rparr>) w'
      else Some ((result, None), w)) = Some y"
  show "\<exists>exs. log (snd y) = log w @ exs \<and> run_inv t resp result exs (fst (fst y)) (snd (fst y))"
  proof (cases "0 < t")
    case False
    with body have "y = ((result, None), w)" by simp
    then show ?thesis by (intro exI [of _ "[]"]) (simp add: run_inv_def pages_def)
  next
    case t: True
    define q' where "q' = query\<lparr>Limit := min' t maxPerPage, Page := nextPage resp\<rparr>"
    show ?thesis
    proof (cases "nextPage resp = 0")
      case True
      with body t have "y = ((result, None), w)" by (simp add: Let_def)
      then show ?thesis by (intro exI [of _ "[]"]) (simp add: run_inv_def pages_def)
    next
      case np: False
      obtain r out w1 where sr: "search rt s q' w = ((r, out), w1)"
        by (metis prod.exhaust)
      show ?thesis
      proof (cases out)
        case (Inl err)
        with body t np sr have y: "y = ((result, Some err), w1)"
          by (simp add: Let_def q'_def)
        from search_log [OF sr] show ?thesis
        proof (elim disjE conjE exE)
          fix m assume "log w1 = log w" "out = Inl (RequestError m)"
          with y Inl show ?thesis
            by (intro exI [of _ "[]"]) (auto simp: run_inv_def pages_def)
        next
          fix req reply
          assume a: "log w1 = log w @ [(req, reply)]" "req_per_page req = Limit q'"
            "req_page req = Page q'" "out = outcome reply" "r = response_of (req, reply)"
          with Inl have "page_of (req, reply) = None" by (simp add: page_of_def)
          with a y Inl t np show ?thesis
            by (intro exI [of _ "[(req, reply)]"])
               (simp add: run_inv_def pages_def q'_def)
        qed
      next
        case (Inr page)
        define result' where "result' = result\<lparr>IncompleteResults := IncompleteResults page,
                       Total := Total page, Items := Items result @ Items page\<rparr>"
        from body t np sr Inr
        have "loop rt s q' (t - int (length (Items page))) r result' w1 = Some y"
          by (simp add: Let_def q'_def result'_def)
        from IH [OF this] obtain exs where
          exs: "log (snd y) = log w1 @ exs"
            "run_inv (t - int (length (Items page))) r result' exs (fst (fst y)) (snd (fst y))"
          by blast
        from search_log [OF sr] Inr obtain req reply where
          a: "log w1 = log w @ [(req, reply)]" "req_per_page req = Limit q'"
            "req_page req = Page q'" "out = outcome reply" "r = response_of (req, reply)"
          by auto
        with Inr have po: "page_of (req, reply) = Some page" by (simp add: page_of_def)
        have pg: "pages ((req, reply) # exs) = page # pages exs"
          using po by (simp add: pages_def)
        show ?thesis
        proof (intro exI [of _ "(req, reply) # exs"] conjI)
          show "log (snd y) = log w @ (req, reply) # exs" using exs(1) a(1) by simp
          show "run_inv t resp result ((req, reply) # exs) (fst (fst y)) (snd (fst y))"
            using exs(2) a po t np Inr unfolding run_inv_def pg
            by (auto simp: q'_def result'_def)
        qed
      qed
    qed
  qed
qed

lemma search_answered:
  assumes "\<forall>u. NewRequest rt u = None"
  shows "\<exists>req reply n' h'. client s req (net w) = (reply, n')
           \<and> req_per_page req = Limit query \<and> req_page req = Page query
           \<and> search rt s query w =
               ((response_of (req, reply), outcome reply),
                w\<lparr>heap := h', net := n', log := log w @ [(req, reply)]\<rparr>)"
proof -
  obtain q h' where qs: "QueryString rt query (heap w) = (q, h')"
    by (cases "QueryString rt query (heap w)")
  obtain reply n' where c: "client s (request_for rt s query q) (net w) = (reply, n')"
    by (cases "client s (request_for rt s query q) (net w)")
  from assms have nr: "NewRequest rt (request_url (request_for rt s query q)) = None" by simp
  have "req_per_page (request_for rt s query q) = Limit query"
    "req_page (request_for rt s query q) = Page query"
    by (simp_all add: request_for_def)
  with search_sent [OF qs nr c] c show ?thesis by blast
qed


lemma loop_done: "\<not> 0 < t \<Longrightarrow> Repositories_loop rt s query t resp result w = Some ((result, None), w)"
  by (subst Repositories_loop.simps) simp

lemma loop_no_next:
  "0 < t \<Longrightarrow> nextPage resp = 0 \<Longrightarrow>
   Repositories_loop rt s query t resp result w = Some ((result, None), w)"
  by (subst Repositories_loop.simps) (simp add: Let_def)


lemma loop_merged:
  assumes "0 < t" and "nextPage resp \<noteq> 0"
    and "search rt s (query\<lparr>Limit := min' t maxPerPage, Page := nextPage resp\<rparr>) w = ((r, Inr page), w')"
  shows "Repositories_loop rt s query t resp result w =
         Repositories_loop rt s (query\<lparr>Limit := min' t maxPerPage, Page := nextPage resp\<rparr>)
           (t - int (length (Items page))) r
           (result\<lparr>IncompleteResults := IncompleteResults page, Total := Total page,
                   Items := Items result @ Items page\<rparr>) w'"
  using assms by (subst Repositories_loop.simps) (simp add: Let_def)

lemma exchanges_append: "log w' = log w @ exs \<Longrightarrow> exchanges w w' = exs"
  by (simp add: exchanges_def)

lemma fetch_log:
  assumes "Repositories rt s query w = Some ((res, e), w')"
  shows "log w' = log w @ exchanges w w'"
    and "run_inv (Limit query) None \<lparr>IncompleteResults = False, Items = [], Total = 0\<rparr>
           (exchanges w w') res e"
proof -
  from loop_log [OF assms [unfolded Repositories_def]] obtain exs where
    exs: "log w' = log w @ exs"
      "run_inv (Limit query) None \<lparr>IncompleteResults = False, Items = [], Total = 0\<rparr> exs res e"
    by auto
  from exs(1) have "exchanges w w' = exs" by (rule exchanges_append)
  with exs show "log w' = log w @ exchanges w w'"
    and "run_inv (Limit query) None \<lparr>IncompleteResults = False, Items = [], Total = 0\<rparr>
           (exchanges w w') res e" by simp_all
qed


lemma pages_all:
  "list_all (\<lambda>x. page_of x \<noteq> None) exs \<Longrightarrow> exs \<noteq> [] \<Longrightarrow>
   pages exs \<noteq> [] \<and> page_of (last exs) = Some (last (pages exs))"
proof (induction exs)
  case Nil then show ?case by simp
next
  case (Cons x exs)
  then obtain p where p: "page_of x = Some p" by auto
  show ?case
  proof (cases "exs = []")
    case True with p show ?thesis by (simp add: pages_def)
  next
    case False
    with Cons have "pages exs \<noteq> [] \<and> page_of (last exs) = Some (last (pages exs))" by simp
    moreover have "pages (x # exs) = p # pages exs" using p by (simp add: pages_def)
    ultimately show ?thesis using False by simp
  qed
qed

lemma paged_bound:
  assumes "paged t prev exs" and "0 \<le> t"
    and "\<forall>x\<in>set exs. \<forall>p. page_of x = Some p \<longrightarrow> int (length (Items p)) \<le> req_per_page (fst x)"
  shows "int (length (concat (map Items (pages exs)))) \<le> t"
  using assms
proof (induction exs arbitrary: t prev)
  case Nil then show ?case by (simp add: pages_def)
next
  case (Cons x exs)
  show ?case
  proof (cases "page_of x")
    case None
    with Cons.prems show ?thesis by (simp add: pages_def)
  next
    case (Some p)
    with Cons.prems have le: "int (length (Items p)) \<le> min' t maxPerPage" by auto
    then have le': "int (length (Items p)) \<le> t" by (simp add: min'_def split: if_splits)
    from Cons.prems Some have "paged (t - int (length (Items p))) (response_of x) exs" by simp
    from Cons.IH [OF this] le' Cons.prems(3)
    have "int (length (concat (map Items (pages exs)))) \<le> t - int (length (Items p))" by simp
    moreover have "pages (x # exs) = p # pages exs" using Some by (simp add: pages_def)
    ultimately show ?thesis by simp
  qed
qed

text \<open>
  C8, amended. When a fetch succeeds, every exchange delivered a page and the result
  holds the items of these pages in order; when at least one page was fetched,
  \<open>Total\<close> and \<open>IncompleteResults\<close> are those of the last page; and the number of
  items is at most the limit when the limit is not negative and every page holds at
  most the \<open>per_page\<close> items asked of it.
\<close>

theorem successful_fetch_result:
  assumes "Repositories rt s query w = Some ((res, None), w')"
  shows "log w' = log w @ exchanges w w'
       \<and> list_all (\<lambda>x. page_of x \<noteq> None) (exchanges w w')
       \<and> Items res = concat (map Items (pages (exchanges w w')))
       \<and> (exchanges w w' \<noteq> [] \<longrightarrow>
            (\<exists>p. page_of (last (exchanges w w')) = Some p \<and> Total res = Total p
                 \<and> IncompleteResults res = IncompleteResults p))
       \<and> (0 \<le> Limit query
            \<and> (\<forall>x\<in>set (exchanges w w'). \<forall>p. page_of x = Some p
                  \<longrightarrow> int (length (Items p)) \<le> req_per_page (fst x))
            \<longrightarrow> int (length (Items res)) \<le> Limit query)"
proof -
  note f = fetch_log [OF assms]
  let ?exs = "exchanges w w'"
  from f(2) have all: "list_all (\<lambda>x. page_of x \<noteq> None) ?exs"
    and items: "Items res = concat (map Items (pages ?exs))"
    and pg: "paged (Limit query) None ?exs"
    and last: "pages ?exs \<noteq> [] \<longrightarrow> Total res = Total (last (pages ?exs))
             \<and> IncompleteResults res = IncompleteResults (last (pages ?exs))"
    by (simp_all add: run_inv_def)
  have tot: "\<exists>p. page_of (last ?exs) = Some p \<and> Total res = Total p
                 \<and> IncompleteResults res = IncompleteResults p" if "?exs \<noteq> []"
    using pages_all [OF all that] last by simp
  have bound: "int (length (Items res)) \<le> Limit query"
    if "0 \<le> Limit query \<and> (\<forall>x\<in>set ?exs. \<forall>p. page_of x = Some p
                  \<longrightarrow> int (length (Items p)) \<le> req_per_page (fst x))"
    using paged_bound [OF pg] that items by simp
  from f(1) all items tot bound show ?thesis by blast
qed

lemma search_good:
  assumes nr: "\<forall>u. NewRequest rt u = None"
    and good: "\<forall>req n. req_per_page req = Limit query \<longrightarrow>
        (\<exists>resp n' page. client s req n = (Inr resp, n')
        \<and> 200 \<le> RespStatusCode resp \<and> RespStatusCode resp < 300
        \<and> Decode (RespBody resp) = Inr page \<and> P req resp page)"
  shows "\<exists>req resp page w'. search rt s query w = ((Some resp, Inr page), w')
        \<and> log w' = log w @ [(req, Inr resp)] \<and> req_per_page req = Limit query
        \<and> P req resp page"
proof -
  from search_answered [OF nr, of s w query] obtain req reply n' h' where
    a: "client s req (net w) = (reply, n')" "req_per_page req = Limit query"
       "search rt s query w = ((response_of (req, reply), outcome reply),
                w\<lparr>heap := h', net := n', log := log w @ [(req, reply)]\<rparr>)"
    by blast
  from good a(2) obtain resp n'' page where
    g: "client s req (net w) = (Inr resp, n'')" "200 \<le> RespStatusCode resp"
       "RespStatusCode resp < 300" "Decode (RespBody resp) = Inr page" "P req resp page"
    by blast
  from a(1) g(1) have r: "reply = Inr resp" by simp
  with g have "outcome reply = Inr page" "response_of (req, reply) = Some resp"
    by (simp_all add: outcome_def response_of_def)
  with a r g(5) show ?thesis by auto
qed

lemma nextPage_None: "nextPage None = 1"
  by (simp add: nextPage_def)

text \<open>
  C2. The exchanges of every finished fetch are those of the algorithm: each request
  asks for \<open>min(remaining, 100)\<close> items and each page takes the number of items it
  holds off \<open>remaining\<close> (\<open>paged\<close>). For a limit of 250, when every request can be
  built and the provider answers every request for a positive number of items with a
  page of exactly \<open>per_page\<close> items, with a next relation on every full page of 100
  (nothing is asked of the last, shorter page), the fetch succeeds with
  exactly three requests, for 100, 100 and 50 items, and returns 250 items.
\<close>

theorem page_sizes:
  fixes s :: "('s, 'r) searcher"
  shows "(Repositories rt s query w = Some (r, w') \<longrightarrow> paged (Limit query) None (exchanges w w'))
 \<and> (Limit query = 250 \<and> (\<forall>u. NewRequest rt u = None)
     \<and> (\<forall>req n. 0 < req_per_page req \<longrightarrow>
           (\<exists>resp n' page. client s req n = (Inr resp, n')
           \<and> 200 \<le> RespStatusCode resp \<and> RespStatusCode resp < 300
           \<and> Decode (RespBody resp) = Inr page
           \<and> (int (length (Items page)) = req_per_page req
               \<and> (req_per_page req = 100 \<longrightarrow> nextPage (Some resp) \<noteq> 0))))
     \<longrightarrow> (\<exists>res w1. Repositories rt s query w = Some ((res, None), w1)
            \<and> map (\<lambda>x. req_per_page (fst x)) (exchanges w w1) = [100, 100, 50]
            \<and> length (Items res) = 250))"
proof (intro conjI impI)
  assume a: "Repositories rt s query w = Some (r, w')"
  obtain res e where r: "r = (res, e)" by (cases r)
  from fetch_log(2) [OF a [unfolded r]] show "paged (Limit query) None (exchanges w w')"
    by (simp add: run_inv_def)
next
  assume h: "Limit query = 250 \<and> (\<forall>u. NewRequest rt u = None)
     \<and> (\<forall>req n. 0 < req_per_page req \<longrightarrow>
           (\<exists>resp n' page. client s req n = (Inr resp, n')
           \<and> 200 \<le> RespStatusCode resp \<and> RespStatusCode resp < 300
           \<and> Decode (RespBody resp) = Inr page
           \<and> (int (length (Items page)) = req_per_page req
               \<and> (req_per_page req = 100 \<longrightarrow> nextPage (Some resp) \<noteq> 0))))"
  then have lim: "Limit query = 250" and nr: "\<forall>u. NewRequest rt u = None" by simp_all
  from h have good: "\<forall>req n. 0 < req_per_page req \<longrightarrow>
           (\<exists>resp n' page. client s req n = (Inr resp, n')
           \<and> 200 \<le> RespStatusCode resp \<and> RespStatusCode resp < 300
           \<and> Decode (RespBody resp) = Inr page
           \<and> (int (length (Items page)) = req_per_page req
               \<and> (req_per_page req = 100 \<longrightarrow> nextPage (Some resp) \<noteq> 0)))"
    by (rule conjunct2 [THEN conjunct2])
  have step: "\<exists>req resp page w'. search rt s q w0 = ((Some resp, Inr page), w')
        \<and> log w' = log w0 @ [(req, Inr resp)] \<and> req_per_page req = Limit q
        \<and> (int (length (Items page)) = req_per_page req
               \<and> (req_per_page req = 100 \<longrightarrow> nextPage (Some resp) \<noteq> 0))"
    if "0 < Limit q" for q w0
  proof (rule search_good [OF nr], intro allI impI)
    fix req :: request and n :: 's
    assume "req_per_page req = Limit q"
    with that have "0 < req_per_page req" by simp
    with good show "\<exists>resp n' page. client s req n = (Inr resp, n')
           \<and> 200 \<le> RespStatusCode resp \<and> RespStatusCode resp < 300
           \<and> Decode (RespBody resp) = Inr page
           \<and> (int (length (Items page)) = req_per_page req
               \<and> (req_per_page req = 100 \<longrightarrow> nextPage (Some resp) \<noteq> 0))"
      by blast
  qed
  let ?r0 = "\<lparr>IncompleteResults = False, Items = [], Total = 0\<rparr> :: 'r RepositoriesResult"
  define q1 where "q1 = query\<lparr>Limit := min' 250 maxPerPage, Page := nextPage None\<rparr>"
  have "0 < Limit q1" by (simp add: q1_def min'_def maxPerPage_def)
  from step [OF this, of w] obtain req1 resp1 page1 w1 where
    s1: "search rt s q1 w = ((Some resp1, Inr page1), w1)" "log w1 = log w @ [(req1, Inr resp1)]"
      "req_per_page req1 = 100" "int (length (Items page1)) = 100" "nextPage (Some resp1) \<noteq> 0"
    by (auto simp: q1_def min'_def maxPerPage_def)
  define res1 where "res1 = ?r0\<lparr>IncompleteResults := IncompleteResults page1, Total := Total page1,
                   Items := Items ?r0 @ Items page1\<rparr>"
  have l1: "Repositories_loop rt s query 250 None ?r0 w
          = Repositories_loop rt s q1 150 (Some resp1) res1 w1"
    using loop_merged [of 250 None rt s query w "Some resp1" page1 w1 ?r0] s1
    by (simp add: q1_def res1_def nextPage_None)
  define q2 where "q2 = q1\<lparr>Limit := min' 150 maxPerPage, Page := nextPage (Some resp1)\<rparr>"
  have "0 < Limit q2" by (simp add: q2_def min'_def maxPerPage_def)
  from step [OF this, of w1] obtain req2 resp2 page2 w2 where
    s2: "search rt s q2 w1 = ((Some resp2, Inr page2), w2)" "log w2 = log w1 @ [(req2, Inr resp2)]"
      "req_per_page req2 = 100" "int (length (Items page2)) = 100" "nextPage (Some resp2) \<noteq> 0"
    by (auto simp: q2_def min'_def maxPerPage_def)
  define res2 where "res2 = res1\<lparr>IncompleteResults := IncompleteResults page2, Total := Total page2,
                   Items := Items res1 @ Items page2\<rparr>"
  have l2: "Repositories_loop rt s q1 150 (Some resp1) res1 w1
          = Repositories_loop rt s q2 50 (Some resp2) res2 w2"
    using loop_merged [of 150 "Some resp1" rt s q1 w1 "Some resp2" page2 w2 res1] s1 s2
    by (simp add: q2_def res2_def)
  define q3 where "q3 = q2\<lparr>Limit := min' 50 maxPerPage, Page := nextPage (Some resp2)\<rparr>"
  have "0 < Limit q3" by (simp add: q3_def min'_def maxPerPage_def)
  from step [OF this, of w2] obtain req3 resp3 page3 w3 where
    s3: "search rt s q3 w2 = ((Some resp3, Inr page3), w3)" "log w3 = log w2 @ [(req3, Inr resp3)]"
      "req_per_page req3 = 50" "int (length (Items page3)) = 50"
    by (auto simp: q3_def min'_def maxPerPage_def)
  define res3 where "res3 = res2\<lparr>IncompleteResults := IncompleteResults page3, Total := Total page3,
                   Items := Items res2 @ Items page3\<rparr>"
  have l3: "Repositories_loop rt s q2 50 (Some resp2) res2 w2
          = Repositories_loop rt s q3 0 (Some resp3) res3 w3"
    using loop_merged [of 50 "Some resp2" rt s q2 w2 "Some resp3" page3 w3 res2] s2 s3
    by (simp add: q3_def res3_def)
  have l4: "Repositories_loop rt s q3 0 (Some resp3) res3 w3 = Some ((res3, None), w3)"
    by (rule loop_done) simp
  have run: "Repositories rt s query w = Some ((res3, None), w3)"
    unfolding Repositories_def lim l1 l2 l3 l4 ..
  have "log w3 = log w @ [(req1, Inr resp1), (req2, Inr resp2), (req3, Inr resp3)]"
    using s1(2) s2(2) s3(2) by simp
  then have ex: "exchanges w w3 = [(req1, Inr resp1), (req2, Inr resp2), (req3, Inr resp3)]"
    by (rule exchanges_append)
  have "length (Items res3) = 250"
    using s1(4) s2(4) s3(4) by (simp add: res3_def res2_def res1_def)
  with run ex s1(3) s2(3) s3(3)
  show "\<exists>res w1. Repositories rt s query w = Some ((res, None), w1)
            \<and> map (\<lambda>x. req_per_page (fst x)) (exchanges w w1) = [100, 100, 50]
            \<and> length (Items res) = 250"
    by auto
qed




section \<open>Fetches against concrete providers\<close>

lemma nextPage_next_link: "nextPage (Some (page_response next_link page)) = 2"
  by (simp add: nextPage_def page_response_def next_link_def linkRE_at_def dquote_def
      nextPage_step_def Atoi_def isDigit_def isREspace_def tab_def lf_def cr_def)

lemma nextPage_no_link: "nextPage (Some (page_response [] page)) = 0"
  by (simp add: nextPage_def page_response_def)

lemma page_response_page:
  "outcome (Inr (page_response link page)) = Inr page"
  "Decode (RespBody (page_response link page)) = Inr page"
  "RespStatusCode (page_response link page) = 200"
  by (simp_all add: outcome_def page_response_def Decode_def)

lemma no_qualifiers_accepts: "\<forall>u. NewRequest no_qualifiers u = None"
  by (simp add: no_qualifiers_def)

lemma search_cli:
  fixes s :: "(unit, nat) searcher"
  assumes q: "Keywords q = 0" "Kind q = ''repositories''" "\<not> IsSet (Order q)" "\<not> IsSet (Sort q)"
    and s: "host s = ''github.com''"
    and reply: "fst (client s (cli_request (Page q) (Limit q)) ()) = reply"
  shows "search no_qualifiers s q (logged lg) =
           ((response_of (cli_request (Page q) (Limit q), reply), outcome reply),
            logged (lg @ [(cli_request (Page q) (Limit q), reply)]))"
proof -
  have qs: "QueryString no_qualifiers q (heap (logged lg)) = (''cli'', cli_heap)"
    using q(1)
    by (simp add: QueryString_def quoteKeywords_def qualifierTerms_def no_qualifiers_def
        logged_def cli_heap_def quoteKeyword_def ContainsAny_def quoteChars_def
        dquote_def tab_def lf_def cr_def)
  have rq: "request_for no_qualifiers s q ''cli'' = cli_request (Page q) (Limit q)"
    using q s by (simp add: request_for_def cli_request_def no_qualifiers_def)
  have nr: "NewRequest no_qualifiers (request_url (request_for no_qualifiers s q ''cli'')) = None"
    by (simp add: no_qualifiers_def)
  have c: "client s (request_for no_qualifiers s q ''cli'') (net (logged lg)) = (reply, ())"
    using reply unfolding rq by (simp add: prod_eq_iff)
  from search_sent [OF qs nr c] show ?thesis
    by (simp add: rq logged_def)
qed

lemma cli_query_fields:
  "Keywords (cli_query l) = 0" "Kind (cli_query l) = ''repositories''"
  "\<not> IsSet (Order (cli_query l))" "\<not> IsSet (Sort (cli_query l))" "Limit (cli_query l) = l"
  by (simp_all add: cli_query_def unset_def)

lemma start_logged: "start = logged []"
  by (simp add: start_def logged_def)


lemma oversupplies_run:
  assumes "0 < l" and "l \<le> 100"
  shows "Repositories no_qualifiers oversupplies (cli_query l) start
     = Some ((\<lparr>IncompleteResults = False, Items = [1, 2, 3], Total = 3\<rparr>, None),
             logged [(cli_request 1 l,
                      Inr (page_response [] \<lparr>IncompleteResults = False, Items = [1, 2, 3], Total = 3\<rparr>))])"
proof -
  let ?page = "\<lparr>IncompleteResults = False, Items = [1, 2, 3::nat], Total = 3\<rparr>"
  let ?resp = "page_response [] ?page"
  let ?r0 = "\<lparr>IncompleteResults = False, Items = [] :: nat list, Total = 0\<rparr>"
  let ?s = oversupplies
  define q1 where "q1 = (cli_query l)\<lparr>Limit := min' l maxPerPage, Page := nextPage None\<rparr>"
  have f1: "Page q1 = 1" "Limit q1 = l"
    using assms by (simp_all add: q1_def nextPage_None min'_def maxPerPage_def)
  have s1: "search no_qualifiers ?s q1 (logged []) =
      ((Some ?resp, Inr ?page), logged [(cli_request 1 l, Inr ?resp)])"
  proof -
    have k: "Keywords q1 = 0" "Kind q1 = ''repositories''" "\<not> IsSet (Order q1)"
      "\<not> IsSet (Sort q1)"
      by (simp_all add: q1_def cli_query_fields)
    have h: "host ?s = ''github.com''" by (simp add: oversupplies_def)
    have "fst (client ?s (cli_request (Page q1) (Limit q1)) ()) = Inr ?resp"
      by (simp add: oversupplies_def)
    from search_cli [OF k h this, of "[]"] show ?thesis
      by (simp add: f1 response_of_def page_response_page)
  qed
  have l1: "Repositories_loop no_qualifiers ?s (cli_query l) l None ?r0 (logged [])
      = Repositories_loop no_qualifiers ?s q1 (l - 3) (Some ?resp) ?page
          (logged [(cli_request 1 l, Inr ?resp)])"
    using loop_merged [of l None no_qualifiers ?s "cli_query l" "logged []"
        "Some ?resp" ?page "logged [(cli_request 1 l, Inr ?resp)]" ?r0] s1 [unfolded q1_def] assms
    by (simp add: q1_def nextPage_None)
  have l2: "Repositories_loop no_qualifiers ?s q1 (l - 3) (Some ?resp) ?page
          (logged [(cli_request 1 l, Inr ?resp)])
      = Some ((?page, None), logged [(cli_request 1 l, Inr ?resp)])"
  proof (cases "0 < l - 3")
    case True
    then show ?thesis by (rule loop_no_next) (rule nextPage_no_link)
  next
    case False
    then show ?thesis by (rule loop_done)
  qed
  show ?thesis
    unfolding Repositories_def start_logged cli_query_fields l1 l2 ..
qed



text \<open>
  C8, as stated, fails: with a limit of 2, against a provider that answers with a page of
  three items, the fetch succeeds with three items.
\<close>

theorem oversupplied_fetch_exceeds_limit:
  "Repositories no_qualifiers oversupplies (cli_query 2) start
     = Some ((\<lparr>IncompleteResults = False, Items = [1, 2, 3], Total = 3\<rparr>, None),
             logged [(cli_request 1 2,
                      Inr (page_response [] \<lparr>IncompleteResults = False, Items = [1, 2, 3], Total = 3\<rparr>))])
 \<and> Limit (cli_query 2) < int (length [1, 2, 3 :: nat])"
  using oversupplies_run [of 2] by (simp add: cli_query_fields)

theorem successful_fetch_result_witness:
  "Repositories no_qualifiers oversupplies (cli_query 5) start
     = Some ((\<lparr>IncompleteResults = False, Items = [1, 2, 3], Total = 3\<rparr>, None),
             logged [(cli_request 1 5,
                      Inr (page_response [] \<lparr>IncompleteResults = False, Items = [1, 2, 3], Total = 3\<rparr>))])
 \<and> 0 \<le> Limit (cli_query 5)
 \<and> int (length [1, 2, 3 :: nat]) \<le> req_per_page (cli_request 1 5)
 \<and> int (length (Items \<lparr>IncompleteResults = False, Items = [1, 2, 3 :: nat], Total = 3\<rparr>))
      \<le> Limit (cli_query 5)
 \<and> page_of (cli_request 1 5,
       Inr (page_response [] \<lparr>IncompleteResults = False, Items = [1, 2, 3], Total = 3\<rparr>))
     = Some \<lparr>IncompleteResults = False, Items = [1, 2, 3], Total = 3\<rparr>"
proof -
  have run: "Repositories no_qualifiers oversupplies (cli_query 5) start
     = Some ((\<lparr>IncompleteResults = False, Items = [1, 2, 3], Total = 3\<rparr>, None),
             logged [(cli_request 1 5,
                      Inr (page_response [] \<lparr>IncompleteResults = False, Items = [1, 2, 3], Total = 3\<rparr>))])"
    by (rule oversupplies_run) simp_all
  have ex: "exchanges start (logged [(cli_request 1 5,
                      Inr (page_response [] \<lparr>IncompleteResults = False, Items = [1, 2, 3], Total = 3\<rparr>))])
      = [(cli_request 1 5,
                      Inr (page_response [] \<lparr>IncompleteResults = False, Items = [1, 2, 3], Total = 3\<rparr>))]"
    by (simp add: exchanges_def start_def logged_def)
  have po: "page_of (cli_request 1 5,
       Inr (page_response [] \<lparr>IncompleteResults = False, Items = [1, 2, 3], Total = 3\<rparr>))
     = Some \<lparr>IncompleteResults = False, Items = [1, 2, 3], Total = 3\<rparr>"
    by (simp add: page_of_def page_response_page)
  from successful_fetch_result [OF run] run po show ?thesis
    unfolding ex by (simp add: cli_query_fields cli_request_def)
qed

lemma exact_pages_answers:
  "\<forall>req n. 0 < req_per_page req \<longrightarrow>
     (\<exists>resp n' page. client exact_pages req n = (Inr resp, n')
        \<and> 200 \<le> RespStatusCode resp \<and> RespStatusCode resp < 300
        \<and> Decode (RespBody resp) = Inr page
        \<and> (int (length (Items page)) = req_per_page req
            \<and> (req_per_page req = 100 \<longrightarrow> nextPage (Some resp) \<noteq> 0)))"
proof (intro allI impI)
  fix req :: request and n :: unit
  assume pos: "0 < req_per_page req"
  let ?page = "\<lparr>IncompleteResults = False, Items = replicate (nat (req_per_page req)) (0::nat),
                 Total = 250\<rparr>"
  let ?resp = "page_response (if req_per_page req = 100 then next_link else []) ?page"
  have "client exact_pages req n = (Inr ?resp, n)" by (simp add: exact_pages_def)
  moreover have "int (length (Items ?page)) = req_per_page req" using pos by simp
  moreover have "req_per_page req = 100 \<longrightarrow> nextPage (Some ?resp) \<noteq> 0"
    by (simp add: nextPage_next_link)
  ultimately show "\<exists>resp n' page. client exact_pages req n = (Inr resp, n')
        \<and> 200 \<le> RespStatusCode resp \<and> RespStatusCode resp < 300
        \<and> Decode (RespBody resp) = Inr page
        \<and> (int (length (Items page)) = req_per_page req
            \<and> (req_per_page req = 100 \<longrightarrow> nextPage (Some resp) \<noteq> 0))"
    using page_response_page(2,3) [of "if req_per_page req = 100 then next_link else []" ?page]
    by (intro exI [of _ ?resp] exI [of _ n] exI [of _ ?page]) simp
qed

theorem page_sizes_witness:
  "Limit (cli_query 250) = 250
 \<and> (\<exists>res w1. Repositories no_qualifiers exact_pages (cli_query 250) start = Some ((res, None), w1)
       \<and> map (\<lambda>x. req_per_page (fst x)) (exchanges start w1) = [100, 100, 50]
       \<and> length (Items res) = 250
       \<and> paged 250 None (exchanges start w1))"
proof -
  have lim: "Limit (cli_query 250) = 250" by (simp add: cli_query_fields)
  have "\<exists>res w1. Repositories no_qualifiers exact_pages (cli_query 250) start = Some ((res, None), w1)
       \<and> map (\<lambda>x. req_per_page (fst x)) (exchanges start w1) = [100, 100, 50]
       \<and> length (Items res) = 250"
    by (rule page_sizes [of no_qualifiers exact_pages "cli_query 250" start, THEN conjunct2, THEN mp])
       (intro conjI lim no_qualifiers_accepts exact_pages_answers)
  then obtain res w1 where
    run: "Repositories no_qualifiers exact_pages (cli_query 250) start = Some ((res, None), w1)"
      "map (\<lambda>x. req_per_page (fst x)) (exchanges start w1) = [100, 100, 50]"
      "length (Items res) = 250"
    by (elim exE conjE)
  from page_sizes [of no_qualifiers exact_pages "cli_query 250" start "(res, None)" w1] run(1) lim
  have "paged 250 None (exchanges start w1)" by simp
  with run lim show ?thesis by (intro conjI exI [of _ res] exI [of _ w1])
qed




end
